theory Spec2Isabelle
  imports Complex_Main
begin

section \<open>Strings, bytes and the library functions the token codec calls\<close>

text \<open>
  A JavaScript string is represented by the bytes of its UTF-8 encoding, as an Isabelle
  \<open>string\<close> (a list of 8-bit characters). Under this representation
  \<^verbatim>\<open>Buffer.from(s)\<close> and \<^verbatim>\<open>hmac.update(s)\<close>, which encode the string as UTF-8, are the
  identity, string equality is equality of the byte lists, and splitting at the ASCII
  character \<open>:\<close> splits the bytes at the byte 0x3A. A byte list stands for a JavaScript
  string exactly when it is well-formed UTF-8 (predicate \<open>well_formed\<close> below); JavaScript
  strings with unpaired surrogates have no representation and are outside this model.

  Numbers are modelled as mathematical integers: timestamps, time-to-live values and
  counters stay far below \<open>2^53\<close>, where JavaScript's doubles are exact and
  \<^verbatim>\<open>String(n)\<close> prints plain decimal digits.
\<close>

subsection \<open>Base64\<close>

definition b64chars :: string where
  "b64chars = ''ABCDEFGHIJKLMNOPQRSTUVWXYZabcdefghijklmnopqrstuvwxyz0123456789+/''"

definition b64char :: "nat \<Rightarrow> char" where
  "b64char n = b64chars ! n"

text \<open>\<^verbatim>\<open>buf.toString('base64')\<close>: the standard alphabet, padded with \<open>=\<close>.\<close>

fun b64_encode :: "nat list \<Rightarrow> string" where
  "b64_encode [] = []"
| "b64_encode [a] = [b64char (a div 4), b64char ((a mod 4) * 16), CHR ''='', CHR ''='']"
| "b64_encode [a, b] =
     [b64char (a div 4), b64char ((a mod 4) * 16 + b div 16),
      b64char ((b mod 16) * 4), CHR ''='']"
| "b64_encode (a # b # c # rest) =
     b64char (a div 4) # b64char ((a mod 4) * 16 + b div 16) #
     b64char ((b mod 16) * 4 + c div 64) # b64char (c mod 64) # b64_encode rest"

definition toBase64 :: "string \<Rightarrow> string" where
  "toBase64 s = b64_encode (map of_char s)"

text \<open>
  \<^verbatim>\<open>Buffer.from(token, 'base64')\<close> is Node's lenient decoder: a character of the
  standard or of the URL-safe alphabet contributes six bits, any other character is
  skipped, decoding stops at the first \<open>=\<close>, and the bits of an incomplete final
  group that do not fill a byte are dropped. It never fails. \<open>unbase64\<close> reads the
  character by its code: \<open>A\<close>..\<open>Z\<close> are 65..90, \<open>a\<close>..\<open>z\<close> 97..122, \<open>0\<close>..\<open>9\<close>
  48..57, \<open>+\<close> is 43, \<open>-\<close> 45, \<open>/\<close> 47 and \<open>_\<close> 95.
\<close>

definition unbase64 :: "char \<Rightarrow> nat option" where
  "unbase64 c =
     (let n = (of_char c :: nat) in
      if 65 \<le> n \<and> n \<le> 90 then Some (n - 65)
      else if 97 \<le> n \<and> n \<le> 122 then Some (n - 71)
      else if 48 \<le> n \<and> n \<le> 57 then Some (n + 4)
      else if n = 43 \<or> n = 45 then Some 62
      else if n = 47 \<or> n = 95 then Some 63
      else None)"

definition sextets :: "string \<Rightarrow> nat list" where
  "sextets s = List.map_filter unbase64 (takeWhile (\<lambda>c. c \<noteq> CHR ''='') s)"

fun b64_bytes :: "nat list \<Rightarrow> nat list" where
  "b64_bytes (s1 # s2 # s3 # s4 # rest) =
     (s1 * 4 + s2 div 16) # ((s2 mod 16) * 16 + s3 div 4) # ((s3 mod 4) * 64 + s4) #
     b64_bytes rest"
| "b64_bytes [s1, s2, s3] = [s1 * 4 + s2 div 16, (s2 mod 16) * 16 + s3 div 4]"
| "b64_bytes [s1, s2] = [s1 * 4 + s2 div 16]"
| "b64_bytes [s1] = []"
| "b64_bytes [] = []"

definition fromBase64 :: "string \<Rightarrow> string" where
  "fromBase64 s = map char_of (b64_bytes (sextets s))"

subsection \<open>UTF-8 decoding\<close>

text \<open>
  \<^verbatim>\<open>buf.toString('utf8')\<close> decodes the bytes; every maximal ill-formed part is replaced
  by U+FFFD. In the byte representation of strings the result is the input with each
  such part replaced by the three bytes EF BF BD.
\<close>

definition cont :: "char \<Rightarrow> bool" where
  "cont c \<longleftrightarrow> 128 \<le> (of_char c :: nat) \<and> (of_char c :: nat) \<le> 191"

definition second3 :: "char \<Rightarrow> char \<Rightarrow> bool" where
  "second3 b0 b1 =
     (let n0 = (of_char b0 :: nat); n1 = (of_char b1 :: nat) in
      if n0 = 224 then 160 \<le> n1 \<and> n1 \<le> 191
      else if n0 = 237 then 128 \<le> n1 \<and> n1 \<le> 159
      else 128 \<le> n1 \<and> n1 \<le> 191)"

definition second4 :: "char \<Rightarrow> char \<Rightarrow> bool" where
  "second4 b0 b1 =
     (let n0 = (of_char b0 :: nat); n1 = (of_char b1 :: nat) in
      if n0 = 240 then 144 \<le> n1 \<and> n1 \<le> 191
      else if n0 = 244 then 128 \<le> n1 \<and> n1 \<le> 143
      else 128 \<le> n1 \<and> n1 \<le> 191)"

text \<open>Length of the well-formed sequence at the head of the bytes; 0 when there is none.\<close>

fun utf8_seq_len :: "string \<Rightarrow> nat" where
  "utf8_seq_len [] = 0"
| "utf8_seq_len (b0 # bs) =
     (let n0 = (of_char b0 :: nat) in
      if n0 < 128 then 1
      else if 194 \<le> n0 \<and> n0 \<le> 223 then
        (case bs of b1 # _ \<Rightarrow> if cont b1 then 2 else 0 | _ \<Rightarrow> 0)
      else if 224 \<le> n0 \<and> n0 \<le> 239 then
        (case bs of b1 # b2 # _ \<Rightarrow> if second3 b0 b1 \<and> cont b2 then 3 else 0 | _ \<Rightarrow> 0)
      else if 240 \<le> n0 \<and> n0 \<le> 244 then
        (case bs of b1 # b2 # b3 # _ \<Rightarrow>
           if second4 b0 b1 \<and> cont b2 \<and> cont b3 then 4 else 0 | _ \<Rightarrow> 0)
      else 0)"

text \<open>Length of the maximal ill-formed part at the head, when there is no well-formed sequence.\<close>

fun utf8_bad_len :: "string \<Rightarrow> nat" where
  "utf8_bad_len [] = 1"
| "utf8_bad_len (b0 # bs) =
     (let n0 = (of_char b0 :: nat) in
      if 224 \<le> n0 \<and> n0 \<le> 239 then
        (case bs of b1 # _ \<Rightarrow> if second3 b0 b1 then 2 else 1 | _ \<Rightarrow> 1)
      else if 240 \<le> n0 \<and> n0 \<le> 244 then
        (case bs of
           b1 # b2 # _ \<Rightarrow> if second4 b0 b1 then (if cont b2 then 3 else 2) else 1
         | [b1] \<Rightarrow> if second4 b0 b1 then 2 else 1
         | [] \<Rightarrow> 1)
      else 1)"

definition replacement :: string where
  "replacement = [char_of (239::nat), char_of (191::nat), char_of (189::nat)]"

function utf8_toString :: "string \<Rightarrow> string" where
  "utf8_toString bs =
     (if bs = [] then []
      else if 0 < utf8_seq_len bs
        then take (utf8_seq_len bs) bs @ utf8_toString (drop (utf8_seq_len bs) bs)
        else replacement @ utf8_toString (drop (utf8_bad_len bs) bs))"
  by pat_completeness auto
termination
proof (relation "measure length")
  show "wf (measure length)" by simp
next
  fix bs :: string
  assume "bs \<noteq> []" "0 < utf8_seq_len bs"
  then show "(drop (utf8_seq_len bs) bs, bs) \<in> measure length" by simp
next
  fix bs :: string
  assume "bs \<noteq> []"
  moreover have "0 < utf8_bad_len bs"
    by (cases bs) (auto simp: Let_def split: list.splits)
  ultimately show "(drop (utf8_bad_len bs) bs, bs) \<in> measure length" by simp
qed

declare utf8_toString.simps [simp del]

definition well_formed :: "string \<Rightarrow> bool" where
  "well_formed s \<longleftrightarrow> utf8_toString s = s"

subsection \<open>Splitting and joining at the delimiter\<close>

text \<open>\<^verbatim>\<open>s.split(':')\<close>: never empty; the empty string gives one empty field.\<close>

fun split_colon :: "string \<Rightarrow> string list" where
  "split_colon [] = [[]]"
| "split_colon (c # cs) =
     (if c = CHR '':'' then [] # split_colon cs
      else (case split_colon cs of [] \<Rightarrow> [[c]] | f # fs \<Rightarrow> (c # f) # fs))"

text \<open>\<^verbatim>\<open>parts.join(':')\<close>\<close>

fun join_colon :: "string list \<Rightarrow> string" where
  "join_colon [] = []"
| "join_colon [x] = x"
| "join_colon (x # y # ys) = x @ CHR '':'' # join_colon (y # ys)"

subsection \<open>Numbers and strings\<close>

definition digit_char :: "int \<Rightarrow> char" where
  "digit_char d = char_of (48 + d mod 10)"

function digits_of :: "int \<Rightarrow> string" where
  "digits_of n =
     (if n < 10 then [digit_char n] else digits_of (n div 10) @ [digit_char (n mod 10)])"
  by pat_completeness auto
termination
  by (relation "measure nat") auto

declare digits_of.simps [simp del]

text \<open>\<^verbatim>\<open>String(n)\<close> for an integer, as the template literal applies it to \<^verbatim>\<open>exp\<close>.\<close>

definition show_int :: "int \<Rightarrow> string" where
  "show_int i = (if i < 0 then CHR ''-'' # digits_of (- i) else digits_of i)"

definition is_digit :: "char \<Rightarrow> bool" where
  "is_digit c \<longleftrightarrow> 48 \<le> (of_char c :: int) \<and> (of_char c :: int) \<le> 57"

definition digit_val :: "char \<Rightarrow> int" where
  "digit_val c = of_char c - 48"

text \<open>
  The white space \<^verbatim>\<open>parseInt\<close> skips (StrWhiteSpaceChar), in UTF-8: TAB, LF, VT, FF, CR,
  SP, and U+00A0, U+1680, U+2000..U+200A, U+2028, U+2029, U+202F, U+205F, U+3000, U+FEFF.
  \<open>ws_len\<close> is the number of bytes of the white-space character at the head, else 0.
\<close>

definition ws_len :: "string \<Rightarrow> nat" where
  "ws_len s =
     (case map of_char s :: nat list of
        [] \<Rightarrow> 0
      | a # r \<Rightarrow>
          if (9 \<le> a \<and> a \<le> 13) \<or> a = 32 then 1
          else (case r of
              [] \<Rightarrow> 0
            | b # r' \<Rightarrow>
                if a = 194 \<and> b = 160 then 2
                else (case r' of
                    [] \<Rightarrow> 0
                  | c # _ \<Rightarrow>
                      if a = 225 \<and> b = 154 \<and> c = 128 then 3
                      else if a = 226 \<and> b = 128 \<and>
                              ((128 \<le> c \<and> c \<le> 138) \<or> c = 168 \<or> c = 169 \<or> c = 175) then 3
                      else if a = 226 \<and> b = 129 \<and> c = 159 then 3
                      else if a = 227 \<and> b = 128 \<and> c = 128 then 3
                      else if a = 239 \<and> b = 187 \<and> c = 191 then 3
                      else 0)))"

function skip_ws :: "string \<Rightarrow> string" where
  "skip_ws s = (if 0 < ws_len s then skip_ws (drop (ws_len s) s) else s)"
  by pat_completeness auto
termination
proof (relation "measure length")
  show "wf (measure length)" by simp
next
  fix s :: string
  assume "0 < ws_len s"
  moreover from this have "s \<noteq> []" by (auto simp: ws_len_def)
  ultimately show "(drop (ws_len s) s, s) \<in> measure length" by simp
qed

declare skip_ws.simps [simp del]

definition digits_value :: "string \<Rightarrow> int" where
  "digits_value ds = foldl (\<lambda>acc c. acc * 10 + digit_val c) 0 ds"

text \<open>
  \<^verbatim>\<open>parseInt(s, 10)\<close>: skip white space, read an optional sign, then the longest run of
  decimal digits; \<open>None\<close> is NaN (no digit).
\<close>

definition parseInt :: "string \<Rightarrow> int option" where
  "parseInt s =
     (let t = skip_ws s;
          neg = (t \<noteq> [] \<and> hd t = CHR ''-'');
          u = (if t \<noteq> [] \<and> (hd t = CHR ''-'' \<or> hd t = CHR ''+'') then tl t else t);
          ds = takeWhile is_digit u
      in if ds = [] then None
         else Some (if neg then - digits_value ds else digits_value ds))"

section \<open>Configuration and the token codec\<close>

text \<open>
  The configuration constants of \<^verbatim>\<open>server.js\<close> are read from the process
  environment at start-up; the model takes them, and the HMAC primitive of Node's
  \<^verbatim>\<open>crypto\<close> module, as a parameter record. \<open>hmac_sha256_hex key msg\<close> stands for
  \<^verbatim>\<open>crypto.createHmac('sha256', key).update(msg).digest('hex')\<close>.
\<close>

record env =
  FREE_DAILY_LIMIT :: int
  UNLOCK_TTL_SECONDS :: int
  ADMIN_SECRET :: string
  hmac_sha256_hex :: "string \<Rightarrow> string \<Rightarrow> string"

definition hexchars :: string where
  "hexchars = ''0123456789abcdef''"

text \<open>What \<^verbatim>\<open>digest('hex')\<close> of a SHA-256 HMAC is: 64 lower-case hexadecimal digits.\<close>

definition hex_digest :: "(string \<Rightarrow> string \<Rightarrow> string) \<Rightarrow> bool" where
  "hex_digest h \<longleftrightarrow> (\<forall>k m. length (h k m) = 64 \<and> set (h k m) \<subseteq> set hexchars)"

datatype verify_err = bad_format | bad_sig | expired | exception

datatype verify_result = Ok string string | Fail verify_err

text \<open>
  \<^verbatim>\<open>issueUnlockToken(tmdb_id, userId, ttlSeconds)\<close> at clock reading \<open>now\<close>; the result
  is the pair \<^verbatim>\<open>{ token, expires_at }\<close>. The source's local \<^verbatim>\<open>exp\<close> is \<open>exp_at\<close> here.
\<close>

definition token_payload :: "string \<Rightarrow> string \<Rightarrow> int \<Rightarrow> string" where
  "token_payload tmdb_id userId exp_at =
     tmdb_id @ CHR '':'' # userId @ CHR '':'' # show_int exp_at"

definition issueUnlockToken :: "env \<Rightarrow> int \<Rightarrow> string \<Rightarrow> string \<Rightarrow> int \<Rightarrow> string \<times> int" where
  "issueUnlockToken e now tmdb_id userId ttlSeconds =
     (let exp_at = now + ttlSeconds * 1000;
          payload = token_payload tmdb_id userId exp_at;
          sig = hmac_sha256_hex e (ADMIN_SECRET e) payload;
          token = toBase64 (payload @ CHR '':'' # sig)
      in (token, exp_at))"

text \<open>\<^verbatim>\<open>Buffer.from(token, 'base64').toString('utf8')\<close>\<close>

definition decoded_text :: "string \<Rightarrow> string" where
  "decoded_text token = utf8_toString (fromBase64 token)"

text \<open>
  \<^verbatim>\<open>verifyUnlockToken(token)\<close> for a string \<open>token\<close>, at clock reading \<open>now\<close>. The
  comparison \<^verbatim>\<open>Date.now() > parseInt(expStr, 10)\<close> is false when \<^verbatim>\<open>parseInt\<close> gives NaN.
  None of the calls in the \<^verbatim>\<open>try\<close> block throws on a string, so the \<^verbatim>\<open>catch\<close> branch
  (reason \<open>exception\<close>) is the one for a \<^verbatim>\<open>token\<close> that is not a string.
\<close>

definition verifyUnlockToken :: "env \<Rightarrow> int \<Rightarrow> string \<Rightarrow> verify_result" where
  "verifyUnlockToken e now token =
     (let decoded = decoded_text token;
          parts = split_colon decoded
      in if length parts < 4 then Fail bad_format
         else (case parts of
             tmdb_id # userId # expStr # sigParts \<Rightarrow>
               (let sig = join_colon sigParts;
                    payload = tmdb_id @ CHR '':'' # userId @ CHR '':'' # expStr;
                    expectedSig = hmac_sha256_hex e (ADMIN_SECRET e) payload
                in if expectedSig \<noteq> sig then Fail bad_sig
                   else if (case parseInt expStr of None \<Rightarrow> False | Some x \<Rightarrow> now > x)
                     then Fail expired
                   else Ok tmdb_id userId)
           | _ \<Rightarrow> Fail bad_format))"

subsection \<open>A concrete environment for evaluating the model\<close>

text \<open>
  A keyed checksum printed as 64 hexadecimal digits stands in for HMAC-SHA256 wherever a
  theorem is instantiated at a concrete input; the general theorems hold for every
  function with hexadecimal output.
\<close>

definition demo_checksum :: "string \<Rightarrow> nat" where
  "demo_checksum s = nat (foldl (\<lambda>acc c. (acc * 33 + of_char c) mod 256) (7::int) s)"

definition hex2 :: "nat \<Rightarrow> string" where
  "hex2 n = [hexchars ! ((n div 16) mod 16), hexchars ! (n mod 16)]"

definition demo_hmac :: "string \<Rightarrow> string \<Rightarrow> string" where
  "demo_hmac k m = concat (replicate 32 (hex2 (demo_checksum (k @ m))))"

definition demo_env :: env where
  "demo_env = \<lparr> FREE_DAILY_LIMIT = 2, UNLOCK_TTL_SECONDS = 300,
                ADMIN_SECRET = ''change-me'', hmac_sha256_hex = demo_hmac \<rparr>"


section \<open>The quota store, the unlock handler and the validation handler\<close>

text \<open>
  The Firestore documents the handlers read and write. A Firestore \<^verbatim>\<open>Timestamp\<close> is
  modelled by its value in milliseconds (\<^verbatim>\<open>toMillis()\<close>), \<^verbatim>\<open>null\<close> by \<open>None\<close>. Of a movie
  document only the fields the two handlers read are kept. \<open>db\<close> in \<^verbatim>\<open>server.js\<close> is
  \<^verbatim>\<open>null\<close> when Firebase could not be initialised, hence a \<open>database option\<close>.

  A request is handled at one clock reading \<open>now\<close>: it stands for \<^verbatim>\<open>Date.now()\<close>,
  \<^verbatim>\<open>new Date()\<close>, \<^verbatim>\<open>Timestamp.now()\<close> and the server timestamp that Firestore writes for
  \<^verbatim>\<open>FieldValue.serverTimestamp()\<close>. Store calls are taken to succeed; the only exception
  modelled is the one raised by using the absent \<open>db\<close>, which the handlers' \<^verbatim>\<open>catch\<close>
  turns into status 500.
\<close>

record quota =
  user_id :: string
  daily_count :: int
  last_reset :: "int option"
  last_unlock_at :: "int option"
  blocked_until :: "int option"

record movie =
  published :: bool
  links :: "string list option"

record database =
  user_quota :: "string \<rightharpoonup> quota"
  movies :: "string \<rightharpoonup> movie"

text \<open>\<^verbatim>\<open>getQuotaDocRef(userId)\<close>: creates the quota document when there is none.\<close>

definition getQuotaDocRef :: "database \<Rightarrow> int \<Rightarrow> string \<Rightarrow> database" where
  "getQuotaDocRef d now uid =
     (case user_quota d uid of
        None \<Rightarrow> d\<lparr>user_quota := (user_quota d)(uid \<mapsto>
                 \<lparr>user_id = uid, daily_count = 0, last_reset = Some now,
                  last_unlock_at = None, blocked_until = None\<rparr>)\<rparr>
      | Some _ \<Rightarrow> d)"

text \<open>
  \<^verbatim>\<open>Date.UTC(now.getUTCFullYear(), now.getUTCMonth(), now.getUTCDate(), 0, 0, 0)\<close>: the
  start of the UTC day of \<open>now\<close>, in milliseconds.
\<close>

definition midnightUTC :: "int \<Rightarrow> int" where
  "midnightUTC now = (now div 86400000) * 86400000"

definition needsDailyReset :: "int \<Rightarrow> int option \<Rightarrow> bool" where
  "needsDailyReset now lastResetTimestamp =
     (case lastResetTimestamp of
        None \<Rightarrow> True
      | Some lastMs \<Rightarrow> lastMs < midnightUTC now)"

text \<open>\<^verbatim>\<open>qRef.update({...})\<close> on the quota document of \<open>uid\<close>, which exists when it is called.\<close>

definition update_quota :: "database \<Rightarrow> string \<Rightarrow> (quota \<Rightarrow> quota) \<Rightarrow> database" where
  "update_quota d uid f =
     (case user_quota d uid of
        None \<Rightarrow> d
      | Some q \<Rightarrow> d\<lparr>user_quota := (user_quota d)(uid \<mapsto> f q)\<rparr>)"

text \<open>
  The cooldown test \<^verbatim>\<open>quota.blocked_until && ... && quota.blocked_until.toMillis() > Date.now()\<close>:
  the time the subject is blocked until, when it is set and still in the future.
\<close>

definition cooldown_until :: "int \<Rightarrow> int option \<Rightarrow> int option" where
  "cooldown_until now blocked =
     (case blocked of None \<Rightarrow> None | Some b \<Rightarrow> if b > now then Some b else None)"

text \<open>
  The responses of \<^verbatim>\<open>POST /unlock/:tmdb_id\<close>:
  \<^item> \<open>UserIdRequired\<close>: status 400, \<^verbatim>\<open>{ error: 'userId required' }\<close>;
  \<^item> \<open>Cooldown b\<close>: status 429, \<^verbatim>\<open>{ error: 'cooldown', blocked_until: b }\<close>;
  \<^item> \<open>FreeGrant token expires_in remaining_free\<close>: \<^verbatim>\<open>{ ok: true, token, expires_in,
    used_free_quota: true, remaining_free }\<close>;
  \<^item> \<open>MonetizedGrant token expires_in\<close>: \<^verbatim>\<open>{ ok: true, token, expires_in,
    used_free_quota: false, monetized: true }\<close>;
  \<^item> \<open>QuotaExhausted\<close>: status 402, \<^verbatim>\<open>{ error: 'quota_exhausted', requireInterstitial: true, ... }\<close>;
  \<^item> \<open>UnlockError\<close>: status 500 of the \<^verbatim>\<open>catch\<close> block.
\<close>

datatype unlock_response =
    UserIdRequired
  | Cooldown int
  | FreeGrant string rat int
  | MonetizedGrant string rat
  | QuotaExhausted
  | UnlockError

text \<open>
  The handler of \<^verbatim>\<open>POST /unlock/:tmdb_id\<close>. Of the request body, \<open>userId\<close> is \<open>None\<close> when
  the field is absent (the empty string is falsy as well), \<open>adSuccess\<close> is the truthiness of
  the field, and \<open>adType\<close> is the field when it is a string (no other value is \<^verbatim>\<open>===\<close> to
  one of the two ad types). A \<open>userId\<close> that is truthy but not a string is outside the
  model. The result is the response and the store after the request. \<open>quota\<close> is the
  handler's local copy of the document, \<open>d1\<close>, \<open>d2\<close>, \<open>d3\<close> the store after each write;
  \<^verbatim>\<open>quota.daily_count || 0\<close> is \<open>daily_count quota\<close>, the field being a number.
\<close>

definition unlock ::
  "env \<Rightarrow> int \<Rightarrow> database option \<Rightarrow> string \<Rightarrow> string option \<Rightarrow> bool \<Rightarrow> string option
   \<Rightarrow> unlock_response \<times> database option" where
  "unlock e now db tmdb_id userId adSuccess adType =
     (case userId of
        None \<Rightarrow> (UserIdRequired, db)
      | Some uid \<Rightarrow>
          if uid = [] then (UserIdRequired, db)
          else (case db of
              None \<Rightarrow> (UnlockError, db)
            | Some d0 \<Rightarrow>
                (let d1 = getQuotaDocRef d0 now uid in
                 case user_quota d1 uid of
                   None \<Rightarrow> (UnlockError, Some d1)
                 | Some quota0 \<Rightarrow>
                     (let reset = needsDailyReset now (last_reset quota0);
                          d2 = (if reset
                                then update_quota d1 uid
                                       (\<lambda>q. q\<lparr>daily_count := 0, last_reset := Some now\<rparr>)
                                else d1);
                          quota = (if reset then quota0\<lparr>daily_count := 0\<rparr> else quota0)
                      in case cooldown_until now (blocked_until quota) of
                           Some b \<Rightarrow> (Cooldown b, Some d2)
                         | None \<Rightarrow>
                         if daily_count quota < FREE_DAILY_LIMIT e \<and> \<not> adSuccess then
                           (let d3 = update_quota d2 uid
                                       (\<lambda>q. q\<lparr>daily_count := daily_count q + 1,
                                              last_unlock_at := Some now\<rparr>);
                                (token, expires_at) =
                                  issueUnlockToken e now tmdb_id uid (UNLOCK_TTL_SECONDS e)
                            in (FreeGrant token (of_int (expires_at - now) / 1000)
                                  (FREE_DAILY_LIMIT e - (daily_count quota + 1)), Some d3))
                         else if adSuccess \<and> adType = Some ''interstitial'' then
                           (let d3 = update_quota d2 uid (\<lambda>q. q\<lparr>last_unlock_at := Some now\<rparr>);
                                (token, expires_at) =
                                  issueUnlockToken e now tmdb_id uid (UNLOCK_TTL_SECONDS e)
                            in (MonetizedGrant token (of_int (expires_at - now) / 1000), Some d3))
                         else if adSuccess \<and> adType = Some ''rewarded'' then
                           (let d3 = update_quota d2 uid (\<lambda>q. q\<lparr>last_unlock_at := Some now\<rparr>);
                                (token, expires_at) =
                                  issueUnlockToken e now tmdb_id uid (UNLOCK_TTL_SECONDS e)
                            in (MonetizedGrant token (of_int (expires_at - now) / 1000), Some d3))
                         else (QuotaExhausted, Some d2)))))"



text \<open>The quota document of a subject in a store, for stating what a request did to it.\<close>

definition quota_of :: "database option \<Rightarrow> string \<Rightarrow> quota option" where
  "quota_of db uid = (case db of None \<Rightarrow> None | Some d \<Rightarrow> user_quota d uid)"

subsection \<open>A concrete store\<close>


definition demo_movie :: movie where
  "demo_movie = \<lparr>published = False, links = Some [''https://example.org/42.mkv'']\<rparr>"

definition demo_db :: "quota \<Rightarrow> movie \<Rightarrow> database" where
  "demo_db q m = \<lparr>user_quota = [''u1'' \<mapsto> q], movies = [''42'' \<mapsto> m]\<rparr>"

text \<open>
  Other quota documents of \<open>u1\<close>: blocked until ten minutes after 172800005 with a reset
  due; free quota used up; and last reset one millisecond before day 2.
\<close>

definition demo_blocked :: quota where
  "demo_blocked = \<lparr>user_id = ''u1'', daily_count = 2, last_reset = Some 86400000,
                    last_unlock_at = None, blocked_until = Some 173400005\<rparr>"




section \<open>Properties of the library functions\<close>

subsection \<open>Base64 round trip\<close>

text \<open>The character codes of the alphabet, by position.\<close>

definition b64_code :: "nat \<Rightarrow> nat" where
  "b64_code n = (if n < 26 then 65 + n else if n < 52 then 71 + n else if n < 62 then n - 4
                 else if n = 62 then 43 else 47)"

lemma b64chars_code: "map of_char b64chars = map b64_code [0..<64]"
  by (simp add: b64chars_def b64_code_def upt_rec)

lemma of_char_b64char: "n < 64 \<Longrightarrow> of_char (b64char n) = b64_code n"
proof -
  assume n: "n < 64"
  have len: "length b64chars = 64" by (simp add: b64chars_def)
  have "of_char (b64chars ! n) = (map of_char b64chars :: nat list) ! n"
    using n len by simp
  also have "\<dots> = b64_code n" unfolding b64chars_code using n by simp
  finally show ?thesis by (simp add: b64char_def)
qed

lemma unbase64_b64char: "n < 64 \<Longrightarrow> unbase64 (b64char n) = Some n"
  by (auto simp: unbase64_def Let_def of_char_b64char b64_code_def)

lemma b64char_not_pad: "n < 64 \<Longrightarrow> b64char n \<noteq> CHR ''=''"
proof
  assume n: "n < 64" and "b64char n = CHR ''=''"
  then have "(of_char (b64char n) :: nat) = 61" by simp
  with n show False by (auto simp: of_char_b64char b64_code_def split: if_splits)
qed


lemma sextets_b64char: "n < 64 \<Longrightarrow> sextets (b64char n # cs) = n # sextets cs"
  by (simp add: sextets_def b64char_not_pad List.map_filter_simps unbase64_b64char)

lemma sextets_pad: "sextets (CHR ''='' # cs) = []"
  by (simp add: sextets_def List.map_filter_simps)

lemma sextets_Nil: "sextets [] = []"
  by (simp add: sextets_def List.map_filter_simps)

lemma regroup1: "b < 256 \<Longrightarrow> (a div 4) * 4 + ((a mod 4) * 16 + b div 16) div 16 = (a::nat)"
  by simp

lemma regroup2:
  "b < 256 \<Longrightarrow> c < 256 \<Longrightarrow>
   (((a mod 4) * 16 + b div 16) mod 16) * 16 + ((b mod 16) * 4 + c div 64) div 4 = (b::nat)"
  by (simp add: mod_mult_self4)

lemma regroup3: "c < 256 \<Longrightarrow> (((b mod 16) * 4 + c div 64) mod 4) * 64 + c mod 64 = (c::nat)"
  by simp

lemma sextet1: "a < 256 \<Longrightarrow> a div 4 < (64::nat)"
  by simp

lemma sextet2: "b < 256 \<Longrightarrow> (a mod 4) * 16 + b div 16 < (64::nat)"
proof -
  assume "b < 256"
  then have "b div 16 < 16" by simp
  moreover have "a mod 4 < 4" by simp
  ultimately show ?thesis by linarith
qed

lemma sextet3: "c < 256 \<Longrightarrow> (b mod 16) * 4 + c div 64 < (64::nat)"
proof -
  assume "c < 256"
  then have "c div 64 < 4" by simp
  moreover have "b mod 16 < 16" by simp
  ultimately show ?thesis by linarith
qed

lemma sextet4: "c mod 64 < (64::nat)"
  by simp

lemma b64_bytes_encode: "\<forall>x \<in> set bs. x < 256 \<Longrightarrow> b64_bytes (sextets (b64_encode bs)) = bs"
proof (induction bs rule: b64_encode.induct)
  case 1
  show ?case by (simp add: sextets_Nil)
next
  case (2 a)
  then have a: "a < 256" by simp
  have z: "(0::nat) < 256" by simp
  have "sextets (b64_encode [a]) = [a div 4, (a mod 4) * 16 + 0 div 16]"
    using sextet1 [OF a] sextet2 [OF z, of a] by (simp add: sextets_b64char sextets_pad)
  then show ?case using regroup1 [OF z, of a] by (simp del: div_0)
next
  case (3 a b)
  then have a: "a < 256" and b: "b < 256" by simp_all
  have z: "(0::nat) < 256" by simp
  have "sextets (b64_encode [a, b]) = [a div 4, (a mod 4) * 16 + b div 16, (b mod 16) * 4 + 0 div 64]"
    using sextet1 [OF a] sextet2 [OF b, of a] sextet3 [OF z, of b] by (simp add: sextets_b64char sextets_pad)
  then show ?case using regroup1 [OF b, of a] regroup2 [OF b z, of a] by (simp del: div_0)
next
  case (4 a b c rest)
  then have a: "a < 256" and b: "b < 256" and c: "c < 256"
    and r: "b64_bytes (sextets (b64_encode rest)) = rest" by simp_all
  have "sextets (b64_encode (a # b # c # rest)) =
      (a div 4) # ((a mod 4) * 16 + b div 16) # ((b mod 16) * 4 + c div 64) # (c mod 64) #
      sextets (b64_encode rest)"
    using sextet1 [OF a] sextet2 [OF b, of a] sextet3 [OF c, of b] sextet4 [of c] by (simp add: sextets_b64char)
  then show ?case using regroup1 [OF b, of a] regroup2 [OF b c, of a] regroup3 [OF c, of b] r
    by (simp only: b64_bytes.simps)
qed

lemma fromBase64_toBase64: "fromBase64 (toBase64 s) = s"
proof -
  have "\<forall>x \<in> set (map of_char s :: nat list). x < 256" by simp
  then have "b64_bytes (sextets (b64_encode (map of_char s))) = map of_char s"
    by (rule b64_bytes_encode)
  then show ?thesis by (simp add: fromBase64_def toBase64_def comp_def map_idI)
qed

subsection \<open>UTF-8: well-formed strings pass through unchanged\<close>

lemma utf8_seq_len_le: "utf8_seq_len bs \<le> length bs"
  by (cases bs) (auto simp: Let_def split: list.splits)

lemma utf8_seq_len_append: "0 < utf8_seq_len a \<Longrightarrow> utf8_seq_len (a @ b) = utf8_seq_len a"
  by (cases a) (auto simp: Let_def split: list.splits if_splits)

lemma utf8_seq_len_replacement: "utf8_seq_len (replacement @ r) = 3"
  by (simp add: replacement_def Let_def second3_def cont_def)

lemma utf8_toString_Nil: "utf8_toString [] = []"
  by (simp add: utf8_toString.simps)

lemma well_formed_seq: "well_formed a \<Longrightarrow> a \<noteq> [] \<Longrightarrow> 0 < utf8_seq_len a"
proof (rule ccontr)
  assume wf: "well_formed a" and ne: "a \<noteq> []" and "\<not> 0 < utf8_seq_len a"
  then have z: "utf8_seq_len a = 0" by simp
  then have "utf8_toString a = replacement @ utf8_toString (drop (utf8_bad_len a) a)"
    using ne by (subst utf8_toString.simps) simp
  with wf have "a = replacement @ utf8_toString (drop (utf8_bad_len a) a)"
    by (simp add: well_formed_def)
  then have "utf8_seq_len a = 3" using utf8_seq_len_replacement by metis
  with z show False by simp
qed

lemma well_formed_step:
  assumes "well_formed a" "a \<noteq> []"
  shows "well_formed (drop (utf8_seq_len a) a)"
proof -
  have pos: "0 < utf8_seq_len a" using assms by (rule well_formed_seq)
  have "utf8_toString a = take (utf8_seq_len a) a @ utf8_toString (drop (utf8_seq_len a) a)"
    using assms(2) pos by (subst utf8_toString.simps) simp
  with assms(1) have "take (utf8_seq_len a) a @ utf8_toString (drop (utf8_seq_len a) a) = a"
    by (simp add: well_formed_def)
  then have "take (utf8_seq_len a) a @ utf8_toString (drop (utf8_seq_len a) a)
           = take (utf8_seq_len a) a @ drop (utf8_seq_len a) a" by simp
  then show ?thesis unfolding well_formed_def by (simp only: same_append_eq)
qed

lemma utf8_toString_append: "well_formed a \<Longrightarrow> utf8_toString (a @ b) = a @ utf8_toString b"
proof (induction "length a" arbitrary: a rule: less_induct)
  case less
  show ?case
  proof (cases "a = []")
    case True
    then show ?thesis by simp
  next
    case ne: False
    let ?n = "utf8_seq_len a"
    have pos: "0 < ?n" using less.prems ne by (rule well_formed_seq)
    have le: "?n \<le> length a" by (rule utf8_seq_len_le)
    have wf': "well_formed (drop ?n a)" using less.prems ne by (rule well_formed_step)
    have "length (drop ?n a) < length a" using pos ne by simp
    then have ih: "utf8_toString (drop ?n a @ b) = drop ?n a @ utf8_toString b"
      using wf' by (rule less.hyps)
    have n': "utf8_seq_len (a @ b) = ?n" using pos by (rule utf8_seq_len_append)
    have "utf8_toString (a @ b) = take ?n (a @ b) @ utf8_toString (drop ?n (a @ b))"
      using ne pos n' by (subst utf8_toString.simps) simp
    also have "\<dots> = take ?n a @ utf8_toString (drop ?n a @ b)" using le by simp
    also have "\<dots> = take ?n a @ drop ?n a @ utf8_toString b" using ih by simp
    finally show ?thesis by simp
  qed
qed

lemma well_formed_append: "well_formed a \<Longrightarrow> well_formed b \<Longrightarrow> well_formed (a @ b)"
  by (simp add: well_formed_def utf8_toString_append)

lemma well_formed_Nil: "well_formed []"
  by (simp add: well_formed_def utf8_toString_Nil)

lemma well_formed_ascii_char: "(of_char c :: nat) < 128 \<Longrightarrow> well_formed [c]"
  unfolding well_formed_def
  by (subst utf8_toString.simps) (simp add: Let_def utf8_toString_Nil)

lemma well_formed_ascii: "\<forall>c \<in> set s. (of_char c :: nat) < 128 \<Longrightarrow> well_formed s"
proof (induction s)
  case Nil
  show ?case by (rule well_formed_Nil)
next
  case (Cons c s)
  then have "well_formed [c]" and "well_formed s" by (simp_all add: well_formed_ascii_char)
  then have "well_formed ([c] @ s)" by (rule well_formed_append)
  then show ?case by simp
qed

lemma well_formed_Cons_ascii: "(of_char c :: nat) < 128 \<Longrightarrow> well_formed s \<Longrightarrow> well_formed (c # s)"
  using well_formed_append [OF well_formed_ascii_char, of c s] by simp

subsection \<open>Splitting and joining\<close>

lemma split_colon_not_Nil: "split_colon s \<noteq> []"
  by (induction s) (auto split: list.splits)

lemma split_colon_no_colon: "CHR '':'' \<notin> set a \<Longrightarrow> split_colon a = [a]"
  by (induction a) auto




subsection \<open>Printing and parsing integers\<close>

lemma of_char_digit_char: "(of_char (digit_char d) :: int) = 48 + d mod 10"
proof -
  have "0 \<le> d mod 10" "d mod 10 < 10" by simp_all
  then have "(48 + d mod 10) mod 256 = 48 + d mod 10" by simp
  then show ?thesis by (simp add: digit_char_def)
qed

lemma is_digit_digit_char: "is_digit (digit_char d)"
  by (simp add: is_digit_def of_char_digit_char)



lemma digits_of_digits: "\<forall>c \<in> set (digits_of n). is_digit c"
proof (induction n rule: digits_of.induct)
  case (1 n)
  show ?case
  proof (cases "n < 10")
    case True
    then show ?thesis by (subst digits_of.simps) (simp add: is_digit_digit_char)
  next
    case False
    with 1 have "\<forall>c \<in> set (digits_of (n div 10)). is_digit c" by simp
    with False show ?thesis by (subst digits_of.simps) (simp add: is_digit_digit_char)
  qed
qed



lemma is_digit_nat: "is_digit c \<longleftrightarrow> 48 \<le> (of_char c :: nat) \<and> (of_char c :: nat) \<le> 57"
proof -
  have "(of_char c :: int) = int (of_char c)" by (simp only: of_nat_of_char)
  then show ?thesis unfolding is_digit_def by linarith
qed







lemma show_int_ascii: "c \<in> set (show_int i) \<Longrightarrow> c = CHR ''-'' \<or> is_digit c"
  using digits_of_digits by (auto simp: show_int_def split: if_splits)

lemma show_int_no_colon: "CHR '':'' \<notin> set (show_int i)"
proof
  assume "CHR '':'' \<in> set (show_int i)"
  then have "CHR '':'' = CHR ''-'' \<or> is_digit CHR '':''" by (rule show_int_ascii)
  then show False by (simp add: is_digit_def)
qed

lemma well_formed_show_int: "well_formed (show_int i)"
proof (rule well_formed_ascii, rule ballI)
  fix c assume "c \<in> set (show_int i)"
  then have "c = CHR ''-'' \<or> is_digit c" by (rule show_int_ascii)
  then show "(of_char c :: nat) < 128" by (auto simp: is_digit_nat)
qed

subsection \<open>The token codec\<close>

lemma hexchars_ascii: "c \<in> set hexchars \<Longrightarrow> (of_char c :: nat) < 128 \<and> c \<noteq> CHR '':''"
  by (auto simp: hexchars_def)

lemma hex_digest_no_colon: "hex_digest h \<Longrightarrow> CHR '':'' \<notin> set (h k m)"
  using hexchars_ascii unfolding hex_digest_def by blast

lemma hex_digest_well_formed: "hex_digest h \<Longrightarrow> well_formed (h k m)"
proof (rule well_formed_ascii, rule ballI)
  fix c assume "hex_digest h" "c \<in> set (h k m)"
  then have "c \<in> set hexchars" unfolding hex_digest_def by blast
  then show "(of_char c :: nat) < 128" using hexchars_ascii by blast
qed


lemma well_formed_colon_Cons: "well_formed s \<Longrightarrow> well_formed (CHR '':'' # s)"
  by (rule well_formed_Cons_ascii) simp_all

lemma well_formed_token_payload:
  "well_formed a \<Longrightarrow> well_formed b \<Longrightarrow> well_formed (token_payload a b x)"
  unfolding token_payload_def
  by (intro well_formed_append well_formed_colon_Cons well_formed_show_int)

lemma decoded_text_issued:
  assumes "hex_digest (hmac_sha256_hex e)" "well_formed tmdb_id" "well_formed userId"
  shows "decoded_text (fst (issueUnlockToken e now tmdb_id userId ttl)) =
         token_payload tmdb_id userId (now + ttl * 1000) @ CHR '':'' #
         hmac_sha256_hex e (ADMIN_SECRET e) (token_payload tmdb_id userId (now + ttl * 1000))"
proof -
  let ?p = "token_payload tmdb_id userId (now + ttl * 1000)"
  let ?s = "hmac_sha256_hex e (ADMIN_SECRET e) ?p"
  have p: "well_formed ?p" using assms(2,3) by (rule well_formed_token_payload)
  have s: "well_formed ?s" using assms(1) by (rule hex_digest_well_formed)
  have "well_formed (?p @ CHR '':'' # ?s)"
    using p well_formed_colon_Cons [OF s] by (rule well_formed_append)
  then have "utf8_toString (?p @ CHR '':'' # ?s) = ?p @ CHR '':'' # ?s"
    by (simp add: well_formed_def)
  then show ?thesis
    by (simp add: decoded_text_def issueUnlockToken_def Let_def fromBase64_toBase64)
qed



lemma at_least_four: "\<not> length xs < 4 \<Longrightarrow> \<exists>a b c d r. xs = a # b # c # d # r"
  by (auto simp: not_less numeral_eq_Suc Suc_le_length_iff)







subsection \<open>Identifiers that contain the delimiter\<close>

lemma split_colon_snoc:
  "CHR '':'' \<notin> set s \<Longrightarrow> split_colon (p @ CHR '':'' # s) = split_colon p @ [s]"
proof (induction p)
  case Nil
  then show ?case by (simp add: split_colon_no_colon)
next
  case (Cons c p)
  obtain f fs where sp: "split_colon p = f # fs"
    using split_colon_not_Nil [of p] by (cases "split_colon p") auto
  with Cons show ?case by simp
qed

lemma length_split_colon: "length (split_colon p) = Suc (count_list p CHR '':'')"
proof (induction p)
  case Nil
  show ?case by simp
next
  case (Cons c p)
  obtain f fs where sp: "split_colon p = f # fs"
    using split_colon_not_Nil [of p] by (cases "split_colon p") auto
  with Cons show ?case by simp
qed

lemma join_colon_snoc: "fs \<noteq> [] \<Longrightarrow> join_colon (fs @ [s]) = join_colon fs @ CHR '':'' # s"
proof (induction fs rule: join_colon.induct)
  case 1
  then show ?case by simp
next
  case (2 x)
  show ?case by simp
next
  case (3 x y ys)
  then show ?case by simp
qed

lemma count_colon_payload:
  "count_list (token_payload a b x) CHR '':'' =
   count_list a CHR '':'' + count_list b CHR '':'' + 2"
proof -
  have "count_list (show_int x) CHR '':'' = 0"
    using show_int_no_colon [of x] by (simp add: count_list_0_iff)
  then show ?thesis by (simp add: token_payload_def)
qed

text \<open>
  A token issued for an identifier that contains the delimiter is always rejected: the
  split yields more than four fields, and the reassembled signature contains a \<open>:\<close>,
  which no hexadecimal MAC does.
\<close>

lemma delimiter_in_id_rejected:
  assumes h: "hex_digest (hmac_sha256_hex e)"
    and wf: "well_formed tmdb_id" "well_formed userId"
    and c: "CHR '':'' \<in> set tmdb_id \<or> CHR '':'' \<in> set userId"
  shows "verifyUnlockToken e now' (fst (issueUnlockToken e now tmdb_id userId ttl)) = Fail bad_sig"
proof -
  let ?H = "hmac_sha256_hex e (ADMIN_SECRET e)"
  let ?p = "token_payload tmdb_id userId (now + ttl * 1000)"
  let ?t = "fst (issueUnlockToken e now tmdb_id userId ttl)"
  have d: "decoded_text ?t = ?p @ CHR '':'' # ?H ?p"
    using h wf by (rule decoded_text_issued)
  have nc: "CHR '':'' \<notin> set (?H ?p)" using h by (rule hex_digest_no_colon)
  have sp: "split_colon (decoded_text ?t) = split_colon ?p @ [?H ?p]"
    unfolding d using nc by (rule split_colon_snoc)
  have pos: "0 < count_list xs CHR '':''" if "CHR '':'' \<in> set xs" for xs :: string
    using that count_list_0_iff [of xs "CHR '':''"] by (cases "count_list xs CHR '':''") auto
  have "0 < count_list tmdb_id CHR '':'' + count_list userId CHR '':''"
    using c pos [of tmdb_id] pos [of userId] by auto
  then have "\<not> length (split_colon ?p) < 4"
    by (simp add: length_split_colon count_colon_payload)
  then obtain a b x f fs where parts: "split_colon ?p = a # b # x # f # fs"
    using at_least_four by blast
  have j: "join_colon ((f # fs) @ [?H ?p]) = join_colon (f # fs) @ CHR '':'' # ?H ?p"
    by (rule join_colon_snoc) simp
  have "CHR '':'' \<in> set (join_colon ((f # fs) @ [?H ?p]))" unfolding j by simp
  moreover have "CHR '':'' \<notin> set (?H (a @ CHR '':'' # b @ CHR '':'' # x))"
    using h by (rule hex_digest_no_colon)
  ultimately have ne: "?H (a @ CHR '':'' # b @ CHR '':'' # x) \<noteq> join_colon ((f # fs) @ [?H ?p])"
    by metis
  show ?thesis
    unfolding verifyUnlockToken_def Let_def sp parts using ne by simp
qed

section \<open>Properties of the handlers\<close>

lemma issue_pair:
  "issueUnlockToken e now tmdb_id uid ttl =
   (fst (issueUnlockToken e now tmdb_id uid ttl), now + ttl * 1000)"
  by (simp add: issueUnlockToken_def Let_def)

lemma expires_in: "(of_int (now + ttl * 1000 - now) / 1000 :: rat) = of_int ttl"
  by simp

lemma getQuotaDocRef_existing: "user_quota d uid = Some q \<Longrightarrow> getQuotaDocRef d now uid = d"
  by (simp add: getQuotaDocRef_def)




text \<open>The handler on an existing quota document, after the steps before the cooldown test.\<close>

lemma unlock_existing:
  assumes "uid \<noteq> []" "user_quota d uid = Some q0"
  shows "unlock e now (Some d) tmdb_id (Some uid) adSuccess adType =
     (let reset = needsDailyReset now (last_reset q0);
          d2 = (if reset then update_quota d uid (\<lambda>q. q\<lparr>daily_count := 0, last_reset := Some now\<rparr>)
                else d);
          dc = (if reset then 0 else daily_count q0);
          token = fst (issueUnlockToken e now tmdb_id uid (UNLOCK_TTL_SECONDS e))
      in case cooldown_until now (blocked_until q0) of
           Some b \<Rightarrow> (Cooldown b, Some d2)
         | None \<Rightarrow>
           if dc < FREE_DAILY_LIMIT e \<and> \<not> adSuccess then
             (FreeGrant token (of_int (UNLOCK_TTL_SECONDS e)) (FREE_DAILY_LIMIT e - (dc + 1)),
              Some (update_quota d2 uid
                      (\<lambda>q. q\<lparr>daily_count := daily_count q + 1, last_unlock_at := Some now\<rparr>)))
           else if adSuccess \<and> (adType = Some ''interstitial'' \<or> adType = Some ''rewarded'') then
             (MonetizedGrant token (of_int (UNLOCK_TTL_SECONDS e)),
              Some (update_quota d2 uid (\<lambda>q. q\<lparr>last_unlock_at := Some now\<rparr>)))
           else (QuotaExhausted, Some d2))"
proof -
  have g: "getQuotaDocRef d now uid = d" using assms(2) by (rule getQuotaDocRef_existing)
  obtain tok where tok: "issueUnlockToken e now tmdb_id uid (UNLOCK_TTL_SECONDS e) =
      (tok, now + UNLOCK_TTL_SECONDS e * 1000)"
    using issue_pair by blast
  show ?thesis
    using assms tok
    by (simp add: unlock_def Let_def g expires_in cong: option.case_cong)
qed









lemma unlock_cooldown:
  assumes uid: "uid \<noteq> []"
    and q: "user_quota d uid = Some q"
    and b: "blocked_until q = Some b" "now < b"
  shows "unlock e now (Some d) tmdb_id (Some uid) adSuccess adType =
         (Cooldown b,
          Some (if needsDailyReset now (last_reset q)
                then d\<lparr>user_quota := (user_quota d)(uid \<mapsto> q\<lparr>daily_count := 0, last_reset := Some now\<rparr>)\<rparr>
                else d))"
  using b q
  by (simp add: unlock_existing [OF uid q] Let_def cooldown_until_def update_quota_def)






lemma quota_of_Some: "quota_of db uid = Some q \<Longrightarrow> \<exists>d. db = Some d \<and> user_quota d uid = Some q"
  by (cases db) (simp_all add: quota_of_def)



section \<open>Claims about the token codec\<close>















section \<open>Claims about the unlock and validation handlers\<close>

text \<open>
  C2 (as amended). Cooldown: for every unlock request of a subject whose quota document has
  \<open>blocked_until\<close> set to a time in the future, the request is refused with
  \<open>Cooldown blocked_until\<close>, regardless of \<open>daily_count\<close> and of any ad claim. The refusal is
  decided after the daily reset step and before any quota evaluation: when a reset is due
  the document's \<open>daily_count\<close> is set to 0 and \<open>last_reset\<close> to now, and no other field
  changes; when no reset is due the store is left exactly as it was.
\<close>

theorem cooldown_refusal:
  assumes "uid \<noteq> []"
    and "quota_of db uid = Some q"
    and "blocked_until q = Some b" "now < b"
  shows "fst (unlock e now db tmdb_id (Some uid) adSuccess adType) = Cooldown b \<and>
         quota_of (snd (unlock e now db tmdb_id (Some uid) adSuccess adType)) uid =
           Some (if needsDailyReset now (last_reset q)
                 then q\<lparr>daily_count := 0, last_reset := Some now\<rparr> else q) \<and>
         (\<not> needsDailyReset now (last_reset q) \<longrightarrow>
            snd (unlock e now db tmdb_id (Some uid) adSuccess adType) = db)"
proof -
  obtain d where d: "db = Some d" "user_quota d uid = Some q"
    using assms(2) quota_of_Some by blast
  show ?thesis
    unfolding d(1) unlock_cooldown [OF assms(1) d(2) assms(3,4)]
    using d(2) by (simp add: quota_of_def)
qed

text \<open>A blocked subject with a reset due, claiming a rewarded ad.\<close>

theorem cooldown_refusal_witness:
  "''u1'' \<noteq> [] \<and>
   quota_of (Some (demo_db demo_blocked demo_movie)) ''u1'' = Some demo_blocked \<and>
   blocked_until demo_blocked = Some 173400005 \<and> (172800005::int) < 173400005 \<and>
   fst (unlock demo_env 172800005 (Some (demo_db demo_blocked demo_movie)) ''42'' (Some ''u1'')
          True (Some ''rewarded'')) = Cooldown 173400005 \<and>
   quota_of (snd (unlock demo_env 172800005 (Some (demo_db demo_blocked demo_movie)) ''42''
          (Some ''u1'') True (Some ''rewarded''))) ''u1'' =
     Some (demo_blocked\<lparr>daily_count := 0, last_reset := Some 172800005\<rparr>)"
proof -
  have u: "''u1'' \<noteq> []" by simp
  have q: "quota_of (Some (demo_db demo_blocked demo_movie)) ''u1'' = Some demo_blocked"
    by (simp add: quota_of_def demo_db_def)
  have b: "blocked_until demo_blocked = Some 173400005" by (simp add: demo_blocked_def)
  have t: "(172800005::int) < 173400005" by simp
  have n: "needsDailyReset 172800005 (last_reset demo_blocked)"
    by (simp add: needsDailyReset_def midnightUTC_def demo_blocked_def)
  note r = cooldown_refusal [OF u q b t, of demo_env "''42''" True "Some ''rewarded''"]
  from r have r1: "fst (unlock demo_env 172800005 (Some (demo_db demo_blocked demo_movie)) ''42''
      (Some ''u1'') True (Some ''rewarded'')) = Cooldown 173400005" by (rule conjunct1)
  from r n have r2: "quota_of (snd (unlock demo_env 172800005
      (Some (demo_db demo_blocked demo_movie)) ''42'' (Some ''u1'') True (Some ''rewarded''))) ''u1'' =
     Some (demo_blocked\<lparr>daily_count := 0, last_reset := Some 172800005\<rparr>)" by simp
  show ?thesis by (intro conjI) (rule u q b t r1 r2)+
qed

text \<open>
  C2 as stated fails: the handler runs the daily reset before the cooldown test, so the
  refused request of a blocked subject whose last reset was on the previous UTC day changes
  \<open>daily_count\<close> from 2 to 0 and \<open>last_reset\<close> to the time of the request.
\<close>

theorem cooldown_resets_counterexample:
  "quota_of (Some (demo_db demo_blocked demo_movie)) ''u1'' =
     Some \<lparr>user_id = ''u1'', daily_count = 2, last_reset = Some 86400000,
           last_unlock_at = None, blocked_until = Some 173400005\<rparr> \<and>
   fst (unlock demo_env 172800005 (Some (demo_db demo_blocked demo_movie)) ''42'' (Some ''u1'')
          False None) = Cooldown 173400005 \<and>
   quota_of (snd (unlock demo_env 172800005 (Some (demo_db demo_blocked demo_movie)) ''42''
          (Some ''u1'') False None)) ''u1'' =
     Some \<lparr>user_id = ''u1'', daily_count = 0, last_reset = Some 172800005,
           last_unlock_at = None, blocked_until = Some 173400005\<rparr>"
  by (simp add: unlock_def Let_def getQuotaDocRef_def update_quota_def quota_of_def demo_db_def
      demo_blocked_def needsDailyReset_def midnightUTC_def cooldown_until_def)











end
